theory Spec2Isabelle
  imports Main "HOL-Library.Word" "HOL-Library.While_Combinator"
begin

unbundle bit_operations_syntax

section \<open>Block headers of libsatoshi (src/header.c)\<close>

text \<open>
  The development follows \<^verbatim>\<open>src/header.c\<close>. Buffers are byte lists, C's
  \<^verbatim>\<open>uint32_t\<close> and \<^verbatim>\<open>uint64_t\<close> are words of that width, and a function that
  mutates its arguments through pointers returns their new values.
\<close>

type_synonym u8 = "8 word"
type_synonym u32 = "32 word"
type_synonym u64 = "64 word"

subsection \<open>The header object\<close>

text \<open>
  \<^verbatim>\<open>btc_header_t\<close>: the six fields in their canonical order. The two hashes are
  \<^verbatim>\<open>uint8_t[32]\<close> arrays in C; here they are byte lists, and \<open>header_ok\<close> states the
  length that the array type fixes.
\<close>

record btc_header =
  version :: u32
  prev_block :: "u8 list"
  merkle_root :: "u8 list"
  time :: u32
  bits :: u32
  nonce :: u32

definition header_ok :: "btc_header \<Rightarrow> bool" where
  "header_ok x = (length (prev_block x) = 32 \<and> length (merkle_root x) = 32)"

definition btc_header_init :: "btc_header" where
  "btc_header_init =
     \<lparr>version = 0, prev_block = replicate 32 0, merkle_root = replicate 32 0,
      time = 0, bits = 0, nonce = 0\<rparr>"

definition btc_header_copy :: "btc_header \<Rightarrow> btc_header \<Rightarrow> btc_header" where
  "btc_header_copy z x =
     z\<lparr>version := version x, prev_block := take 32 (prev_block x),
       merkle_root := take 32 (merkle_root x), time := time x, bits := bits x,
       nonce := nonce x\<rparr>"

definition btc_header_size :: "btc_header \<Rightarrow> nat" where
  "btc_header_size x = 0 + 4 + 32 + 32 + 4 + 4 + 4"

subsection \<open>The codec helpers\<close>

text \<open>
  Modelled from the spec: \<^verbatim>\<open>btc_uint32_write\<close>, \<^verbatim>\<open>btc_raw_write\<close>,
  \<^verbatim>\<open>btc_uint32_read\<close> and \<^verbatim>\<open>btc_raw_read\<close> are declared in \<^verbatim>\<open>impl.h\<close>, which is not
  among the sources. Section 4.1 of the specification gives their contracts: a writer
  appends the bytes at the cursor and returns the advanced cursor; a reader that finds
  enough remaining bytes consumes them, advances the cursor and decrements the
  remaining count, and otherwise fails without mutation. An output cursor is the list
  of the bytes written so far; an input cursor is the list of the bytes from the
  cursor on, next to the remaining count \<open>xn\<close>. A failed read is \<open>None\<close>.
\<close>

definition btc_uint32_write :: "u8 list \<Rightarrow> u32 \<Rightarrow> u8 list" where
  "btc_uint32_write zp x =
     zp @ [ucast x, ucast (drop_bit 8 x), ucast (drop_bit 16 x), ucast (drop_bit 24 x)]"

definition btc_raw_write :: "u8 list \<Rightarrow> u8 list \<Rightarrow> nat \<Rightarrow> u8 list" where
  "btc_raw_write zp xp n = zp @ take n xp"

definition read32le :: "u8 list \<Rightarrow> u32" where
  "read32le xp =
     ucast (xp ! 0) OR push_bit 8 (ucast (xp ! 1)) OR
     push_bit 16 (ucast (xp ! 2)) OR push_bit 24 (ucast (xp ! 3))"

definition btc_uint32_read :: "u8 list \<Rightarrow> nat \<Rightarrow> (u32 \<times> u8 list \<times> nat) option" where
  "btc_uint32_read xp xn =
     (if xn < 4 then None else Some (read32le xp, drop 4 xp, xn - 4))"

definition btc_raw_read :: "nat \<Rightarrow> u8 list \<Rightarrow> nat \<Rightarrow> (u8 list \<times> u8 list \<times> nat) option" where
  "btc_raw_read zn xp xn =
     (if xn < zn then None else Some (take zn xp, drop zn xp, xn - zn))"

subsection \<open>Serialisation\<close>

definition btc_header_write :: "u8 list \<Rightarrow> btc_header \<Rightarrow> u8 list" where
  "btc_header_write zp x =
     (let zp = btc_uint32_write zp (version x);
          zp = btc_raw_write zp (prev_block x) 32;
          zp = btc_raw_write zp (merkle_root x) 32;
          zp = btc_uint32_write zp (time x);
          zp = btc_uint32_write zp (bits x);
          zp = btc_uint32_write zp (nonce x)
      in zp)"

text \<open>
  \<^verbatim>\<open>btc_header_read\<close> returns its status together with the header, the cursor and the
  remaining count as the call leaves them. Each field is stored as soon as its read
  succeeds, so a failure returns the header with the earlier fields already written.
\<close>

definition btc_header_read ::
  "btc_header \<Rightarrow> u8 list \<Rightarrow> nat \<Rightarrow> bool \<times> btc_header \<times> u8 list \<times> nat" where
  "btc_header_read z xp xn =
     (case btc_uint32_read xp xn of
        None \<Rightarrow> (False, z, xp, xn)
      | Some (v, xp, xn) \<Rightarrow>
     let z = z\<lparr>version := v\<rparr> in
     (case btc_raw_read 32 xp xn of
        None \<Rightarrow> (False, z, xp, xn)
      | Some (v, xp, xn) \<Rightarrow>
     let z = z\<lparr>prev_block := v\<rparr> in
     (case btc_raw_read 32 xp xn of
        None \<Rightarrow> (False, z, xp, xn)
      | Some (v, xp, xn) \<Rightarrow>
     let z = z\<lparr>merkle_root := v\<rparr> in
     (case btc_uint32_read xp xn of
        None \<Rightarrow> (False, z, xp, xn)
      | Some (v, xp, xn) \<Rightarrow>
     let z = z\<lparr>time := v\<rparr> in
     (case btc_uint32_read xp xn of
        None \<Rightarrow> (False, z, xp, xn)
      | Some (v, xp, xn) \<Rightarrow>
     let z = z\<lparr>bits := v\<rparr> in
     (case btc_uint32_read xp xn of
        None \<Rightarrow> (False, z, xp, xn)
      | Some (v, xp, xn) \<Rightarrow>
     let z = z\<lparr>nonce := v\<rparr> in
     (True, z, xp, xn)))))))"

text \<open>
  The number of bytes that a read has consumed when it stops on a buffer with \<open>xn\<close>
  remaining bytes: the sizes of the fields that fit, in order.
\<close>

definition parsed_size :: "nat \<Rightarrow> nat" where
  "parsed_size xn =
     (if xn < 4 then 0 else if xn < 36 then 4 else if xn < 68 then 36
      else if xn < 72 then 68 else if xn < 76 then 72 else if xn < 80 then 76 else 80)"

subsection \<open>The hasher\<close>

text \<open>
  The SHA-256 core behind \<^verbatim>\<open>btc_hash256_t\<close> (\<^verbatim>\<open>satoshi/crypto/hash.h\<close>) is not among
  the sources. It is a parameter of everything below: a context type \<open>'c\<close>, copied as a
  plain value, with the three operations of the streaming interface. The operation
  \<^verbatim>\<open>btc_hash256_update(ctx, data, len)\<close> receives the \<open>len\<close> bytes as a list.
\<close>

record 'c hash256 =
  btc_hash256_init :: 'c
  btc_hash256_update :: "'c \<Rightarrow> u8 list \<Rightarrow> 'c"
  btc_hash256_final :: "'c \<Rightarrow> u8 list"

text \<open>
  Modelled from the spec: \<^verbatim>\<open>btc_uint32_update\<close> and \<^verbatim>\<open>btc_raw_update\<close> are declared in
  \<^verbatim>\<open>impl.h\<close>, which is not among the sources. By section 4.2 of the specification the
  integer update writes the little-endian bytes of its argument into the stream, and
  the raw update passes its bytes on.
\<close>

definition btc_uint32_update :: "'c hash256 \<Rightarrow> 'c \<Rightarrow> u32 \<Rightarrow> 'c" where
  "btc_uint32_update ops ctx x = btc_hash256_update ops ctx (btc_uint32_write [] x)"

definition btc_raw_update :: "'c hash256 \<Rightarrow> 'c \<Rightarrow> u8 list \<Rightarrow> nat \<Rightarrow> 'c" where
  "btc_raw_update ops ctx xp n = btc_hash256_update ops ctx (take n xp)"

text \<open>
  Modelled from the spec: the one-shot digest of a buffer, \<^verbatim>\<open>init\<close>, one \<^verbatim>\<open>update\<close> with
  the whole buffer, \<^verbatim>\<open>final\<close> (section 4.2); for the real hasher this is the double
  SHA-256 of the buffer.
\<close>

definition btc_hash256 :: "'c hash256 \<Rightarrow> u8 list \<Rightarrow> u8 list" where
  "btc_hash256 ops xp =
     btc_hash256_final ops (btc_hash256_update ops (btc_hash256_init ops) xp)"

text \<open>
  A hasher is streaming when two updates in a row absorb what one update with the
  concatenated bytes absorbs. SHA-256 has this property; nothing else is assumed of
  the hasher, and only the comparison of \<^verbatim>\<open>btc_header_hash\<close> with the digest of the
  serialised header needs it.
\<close>

definition hash256_streaming :: "'c hash256 \<Rightarrow> bool" where
  "hash256_streaming ops =
     (\<forall>ctx xp yp. btc_hash256_update ops (btc_hash256_update ops ctx xp) yp =
        btc_hash256_update ops ctx (xp @ yp))"

subsection \<open>Hashing and verification\<close>

definition btc_header_hash :: "'c hash256 \<Rightarrow> btc_header \<Rightarrow> u8 list" where
  "btc_header_hash ops x =
     (let ctx = btc_hash256_init ops;
          ctx = btc_uint32_update ops ctx (version x);
          ctx = btc_raw_update ops ctx (prev_block x) 32;
          ctx = btc_raw_update ops ctx (merkle_root x) 32;
          ctx = btc_uint32_update ops ctx (time x);
          ctx = btc_uint32_update ops ctx (bits x);
          ctx = btc_uint32_update ops ctx (nonce x)
      in btc_hash256_final ops ctx)"

text \<open>
  \<^verbatim>\<open>btc_compact_export\<close> and \<^verbatim>\<open>btc_hash_compare\<close> (\<^verbatim>\<open>satoshi/util.h\<close>) are not among the
  sources either and are parameters: \<open>compact_export b\<close> is \<open>None\<close> when the C function
  returns 0 and otherwise the contents it leaves in the array \<^verbatim>\<open>target[32]\<close> of
  \<^verbatim>\<open>btc_header_verify\<close>; \<open>hash_compare\<close> returns the C \<^verbatim>\<open>int\<close>.
\<close>

definition btc_header_verify ::
  "'c hash256 \<Rightarrow> (u32 \<Rightarrow> u8 list option) \<Rightarrow> (u8 list \<Rightarrow> u8 list \<Rightarrow> int) \<Rightarrow>
   btc_header \<Rightarrow> bool" where
  "btc_header_verify ops compact_export hash_compare x =
     (case compact_export (bits x) of
        None \<Rightarrow> False
      | Some target \<Rightarrow>
          (let hash = btc_header_hash ops x in hash_compare hash target \<le> 0))"

subsection \<open>Mining\<close>

text \<open>
  The digest state of lines 141 to 147 of \<^verbatim>\<open>btc_header_mine\<close>: the hasher after the
  first five fields, that is after the 76 bytes before the nonce.
\<close>

definition mine_prefix :: "'c hash256 \<Rightarrow> btc_header \<Rightarrow> 'c" where
  "mine_prefix ops x =
     (let pre = btc_hash256_init ops;
          pre = btc_uint32_update ops pre (version x);
          pre = btc_raw_update ops pre (prev_block x) 32;
          pre = btc_raw_update ops pre (merkle_root x) 32;
          pre = btc_uint32_update ops pre (time x);
          pre = btc_uint32_update ops pre (bits x)
      in pre)"

text \<open>
  \<^verbatim>\<open>btc_header_mine\<close> is two nested loops, the outer one without an exit of its own, so
  the function need not return. It is modelled as a machine: a state holds the
  variables of the function and a control point, \<open>mine_step\<close> runs the code from one
  control point to the next, and \<open>btc_header_mine\<close> iterates it until a \<^verbatim>\<open>return\<close>.

  The control points are \<open>Restart\<close>, the top of \<^verbatim>\<open>for (;;)\<close>; \<open>Attempt pre\<close>, the top of
  the body of \<^verbatim>\<open>do ... while\<close>, where \<open>pre\<close> is the prefix snapshot (its value from
  \<^verbatim>\<open>memset\<close> is never read); and \<open>Return b\<close>, the function has returned \<open>b\<close>.

  The callback \<^verbatim>\<open>adjtime\<close> reads and may change what \<^verbatim>\<open>arg\<close> points to: it maps that
  state to the time it returns and the new state. The fields \<open>finals\<close> and \<open>ticks\<close> are
  not variables of the C function; they count the calls of \<^verbatim>\<open>btc_hash256_final\<close> and
  of \<^verbatim>\<open>adjtime\<close> made so far.
\<close>

datatype 'c mine_pc = Restart | Attempt 'c | Return bool

record ('c, 'a) mine_state =
  pc :: "'c mine_pc"
  hdr :: btc_header
  attempt :: u64
  arg :: 'a
  finals :: nat
  ticks :: nat

definition mine_step ::
  "'c hash256 \<Rightarrow> (u8 list \<Rightarrow> u8 list \<Rightarrow> int) \<Rightarrow> u8 list \<Rightarrow> u64 \<Rightarrow> ('a \<Rightarrow> u32 \<times> 'a) \<Rightarrow>
   ('c, 'a) mine_state \<Rightarrow> ('c, 'a) mine_state" where
  "mine_step ops hash_compare target limit adjtime s =
     (case pc s of
        Restart \<Rightarrow>
          (let (t, a) = adjtime (arg s);
               s = s\<lparr>hdr := (hdr s)\<lparr>time := t\<rparr>, arg := a, ticks := ticks s + 1\<rparr>;
               pre = mine_prefix ops (hdr s)
           in s\<lparr>pc := Attempt pre\<rparr>)
      | Attempt pre \<Rightarrow>
          (let ctx = pre;
               ctx = btc_uint32_update ops ctx (nonce (hdr s));
               hash = btc_hash256_final ops ctx;
               s = s\<lparr>finals := finals s + 1\<rparr>
           in if hash_compare hash target \<le> 0 then s\<lparr>pc := Return True\<rparr>
              else
                (let s = s\<lparr>hdr := (hdr s)\<lparr>nonce := nonce (hdr s) + 1\<rparr>\<rparr>;
                     s = (if 0 < limit then s\<lparr>attempt := attempt s + 1\<rparr> else s)
                 in if 0 < limit \<and> attempt s = limit then s\<lparr>pc := Return False\<rparr>
                    else if nonce (hdr s) \<noteq> 0 then s
                    else s\<lparr>pc := Restart\<rparr>))
      | Return b \<Rightarrow> s)"

definition mine_running :: "('c, 'a) mine_state \<Rightarrow> bool" where
  "mine_running s = (case pc s of Return b \<Rightarrow> False | _ \<Rightarrow> True)"

definition mine_start :: "btc_header \<Rightarrow> 'a \<Rightarrow> ('c, 'a) mine_state" where
  "mine_start x a = \<lparr>pc = Restart, hdr = x, attempt = 0, arg = a, finals = 0, ticks = 0\<rparr>"

text \<open>
  The result is the state at the \<^verbatim>\<open>return\<close>: its \<open>pc\<close> is \<open>Return b\<close> for the returned
  \<open>b\<close>, its \<open>hdr\<close> is the header as the caller finds it. \<open>None\<close> means that the function
  never returns.
\<close>

definition btc_header_mine ::
  "'c hash256 \<Rightarrow> (u8 list \<Rightarrow> u8 list \<Rightarrow> int) \<Rightarrow> u8 list \<Rightarrow> u64 \<Rightarrow> ('a \<Rightarrow> u32 \<times> 'a) \<Rightarrow>
   'a \<Rightarrow> btc_header \<Rightarrow> ('c, 'a) mine_state option" where
  "btc_header_mine ops hash_compare target limit adjtime a x =
     while_option mine_running (mine_step ops hash_compare target limit adjtime)
       (mine_start x a)"

subsection \<open>The search that mining performs\<close>

text \<open>
  The callback as a sequence: \<open>clock_arg adjtime a n\<close> is its state after \<open>n\<close> calls
  from the state \<open>a\<close>, and \<open>clock_val adjtime a n\<close> the time that the next call returns.
\<close>

definition clock_arg :: "('a \<Rightarrow> u32 \<times> 'a) \<Rightarrow> 'a \<Rightarrow> nat \<Rightarrow> 'a" where
  "clock_arg adjtime a n = ((\<lambda>b. snd (adjtime b)) ^^ n) a"

definition clock_val :: "('a \<Rightarrow> u32 \<times> 'a) \<Rightarrow> 'a \<Rightarrow> nat \<Rightarrow> u32" where
  "clock_val adjtime a n = fst (adjtime (clock_arg adjtime a n))"

text \<open>
  The header of attempt \<open>j\<close>, counted from 0, of a search that starts from \<open>x\<close>: the
  nonce has advanced \<open>j\<close> times, and the time is the value of the clock call after as
  many wraps of the nonce as \<open>j\<close> increments make.
\<close>

definition search_wraps :: "btc_header \<Rightarrow> nat \<Rightarrow> nat" where
  "search_wraps x j = (unat (nonce x) + j) div 2 ^ 32"

definition search_hdr :: "('a \<Rightarrow> u32 \<times> 'a) \<Rightarrow> 'a \<Rightarrow> btc_header \<Rightarrow> nat \<Rightarrow> btc_header" where
  "search_hdr adjtime a x j =
     x\<lparr>time := clock_val adjtime a (search_wraps x j), nonce := nonce x + of_nat j\<rparr>"

definition search_hit ::
  "'c hash256 \<Rightarrow> (u8 list \<Rightarrow> u8 list \<Rightarrow> int) \<Rightarrow> u8 list \<Rightarrow> ('a \<Rightarrow> u32 \<times> 'a) \<Rightarrow> 'a \<Rightarrow>
   btc_header \<Rightarrow> nat \<Rightarrow> bool" where
  "search_hit ops hash_compare target adjtime a x j =
     (hash_compare (btc_header_hash ops (search_hdr adjtime a x j)) target \<le> 0)"

definition search_state ::
  "'c hash256 \<Rightarrow> u64 \<Rightarrow> ('a \<Rightarrow> u32 \<times> 'a) \<Rightarrow> 'a \<Rightarrow> btc_header \<Rightarrow> nat \<Rightarrow> ('c, 'a) mine_state" where
  "search_state ops limit adjtime a x j =
     \<lparr>pc = Attempt (mine_prefix ops (search_hdr adjtime a x j)),
      hdr = search_hdr adjtime a x j,
      attempt = (if 0 < limit then of_nat j else 0),
      arg = clock_arg adjtime a (search_wraps x j + 1),
      finals = j,
      ticks = search_wraps x j + 1\<rparr>"

subsection \<open>Notions for the statements about mining\<close>

text \<open>
  What holds of every state that \<^verbatim>\<open>btc_header_mine\<close> runs through, started on the
  header \<open>x\<close> with the callback state \<open>a\<close>: the callback state is the one after
  \<open>ticks\<close> calls; the four fields that the function never assigns are those of \<open>x\<close>;
  the nonce has advanced once per failed attempt; inside the inner loop the snapshot
  is the prefix of the header as it stands and the time is the value of the latest
  call; and after \<^verbatim>\<open>return 1\<close> the hash of the header meets the target.
\<close>

definition mine_inv ::
  "'c hash256 \<Rightarrow> (u8 list \<Rightarrow> u8 list \<Rightarrow> int) \<Rightarrow> u8 list \<Rightarrow> ('a \<Rightarrow> u32 \<times> 'a) \<Rightarrow> 'a \<Rightarrow>
   btc_header \<Rightarrow> ('c, 'a) mine_state \<Rightarrow> bool" where
  "mine_inv ops hash_compare target adjtime a x s =
     (arg s = clock_arg adjtime a (ticks s) \<and>
      version (hdr s) = version x \<and> prev_block (hdr s) = prev_block x \<and>
      merkle_root (hdr s) = merkle_root x \<and> bits (hdr s) = bits x \<and>
      (case pc s of
         Restart \<Rightarrow> nonce (hdr s) = nonce x + of_nat (finals s)
       | Attempt pre \<Rightarrow>
           pre = mine_prefix ops (hdr s) \<and>
           nonce (hdr s) = nonce x + of_nat (finals s) \<and>
           0 < ticks s \<and> time (hdr s) = clock_val adjtime a (ticks s - 1)
       | Return b \<Rightarrow>
           0 < ticks s \<and> time (hdr s) = clock_val adjtime a (ticks s - 1) \<and>
           0 < finals s \<and>
           (if b then hash_compare (btc_header_hash ops (hdr s)) target \<le> 0 \<and>
                     nonce (hdr s) = nonce x + of_nat (finals s - 1)
            else nonce (hdr s) = nonce x + of_nat (finals s))))"

text \<open>
  What the search does when the nonce wraps, as a property of the state \<open>s\<close> at the
  top of the inner loop: the attempt made from \<open>s\<close> leaves the function at the top of
  the outer loop with nonce 0, and the pass through the top of the outer loop calls
  the clock once more, stores its value in the time field, takes the prefix snapshot
  of the header with that time, and is back in the inner loop at nonce 0 with one
  more finalisation made.
\<close>

definition wrap_requeries ::
  "'c hash256 \<Rightarrow> (u8 list \<Rightarrow> u8 list \<Rightarrow> int) \<Rightarrow> u8 list \<Rightarrow> u64 \<Rightarrow> ('a \<Rightarrow> u32 \<times> 'a) \<Rightarrow>
   ('c, 'a) mine_state \<Rightarrow> bool" where
  "wrap_requeries ops hash_compare target limit adjtime s =
     (let s1 = mine_step ops hash_compare target limit adjtime s;
          s2 = mine_step ops hash_compare target limit adjtime s1;
          x = (hdr s)\<lparr>nonce := 0, time := fst (adjtime (arg s))\<rparr>
      in pc s1 = Restart \<and> nonce (hdr s1) = 0 \<and>
         pc s2 = Attempt (mine_prefix ops x) \<and> hdr s2 = x \<and>
         arg s2 = snd (adjtime (arg s)) \<and> ticks s2 = ticks s + 1 \<and>
         finals s2 = finals s + 1)"

text \<open>
  The clock that returns the values of a sequence \<open>f\<close>, its state being the number of
  calls made; what a caller can observe of a state of \<^verbatim>\<open>btc_header_mine\<close>, that is
  every component but the callback's own state; and a state with the callback state
  replaced by the number of calls.
\<close>

definition seq_clock :: "(nat \<Rightarrow> u32) \<Rightarrow> nat \<Rightarrow> u32 \<times> nat" where
  "seq_clock f n = (f n, Suc n)"

definition mine_view :: "('c, 'a) mine_state \<Rightarrow> 'c mine_pc \<times> btc_header \<times> u64 \<times> nat \<times> nat" where
  "mine_view s = (pc s, hdr s, attempt s, finals s, ticks s)"

definition mine_seq_state :: "('c, 'a) mine_state \<Rightarrow> ('c, nat) mine_state" where
  "mine_seq_state s =
     \<lparr>pc = pc s, hdr = hdr s, attempt = attempt s, arg = ticks s, finals = finals s,
      ticks = ticks s\<rparr>"

subsection \<open>Sample inputs\<close>

text \<open>A header with the fields of the first block of the main chain, apart from the
  Merkle root.\<close>

definition sample_header :: btc_header where
  "sample_header =
     \<lparr>version = 1, prev_block = replicate 32 0, merkle_root = replicate 32 7,
      time = 1231006505, bits = 0x1d00ffff, nonce = 2083236893\<rparr>"


text \<open>
  A hasher built from a one-shot digest: its context is the list of the bytes absorbed
  so far, and \<^verbatim>\<open>final\<close> applies the digest to it. The sample digest returns the bytes
  from offset 76 on, which for a header are the four bytes of the nonce; the sample
  comparison looks at the first byte of each side only.
\<close>

definition stream_hash256 :: "(u8 list \<Rightarrow> u8 list) \<Rightarrow> (u8 list) hash256" where
  "stream_hash256 digest =
     \<lparr>btc_hash256_init = [], btc_hash256_update = (\<lambda>ctx xp. ctx @ xp),
      btc_hash256_final = digest\<rparr>"

definition nonce_digest :: "u8 list \<Rightarrow> u8 list" where
  "nonce_digest xp = drop 76 xp"

definition first_byte_compare :: "u8 list \<Rightarrow> u8 list \<Rightarrow> int" where
  "first_byte_compare xp yp = int (unat (hd xp)) - int (unat (hd yp))"

definition reject_all :: "u32 \<Rightarrow> u8 list option" where
  "reject_all b = None"

text \<open>
  Two clocks that return 1000, 1001, 1002 and so on, one counting its calls and one
  keeping the next value; the target of 32 zero bytes; and the state of a search on
  the sample header, with the first clock, that is about to try the nonce
  \<^verbatim>\<open>0xFFFFFFFF\<close>.
\<close>

definition sample_clock :: "nat \<Rightarrow> u32 \<times> nat" where
  "sample_clock n = (1000 + of_nat n, Suc n)"

definition word_clock :: "u32 \<Rightarrow> u32 \<times> u32" where
  "word_clock t = (t, t + 1)"

definition zero_target :: "u8 list" where
  "zero_target = replicate 32 0"

definition sample_wrap_state :: "(u8 list, nat) mine_state" where
  "sample_wrap_state =
     \<lparr>pc = Attempt (mine_prefix (stream_hash256 nonce_digest)
             (sample_header\<lparr>time := 1000\<rparr>)),
      hdr = sample_header\<lparr>time := 1000, nonce := 0xFFFFFFFF\<rparr>,
      attempt = 0, arg = 1, finals = 0, ticks = 1\<rparr>"

section \<open>Properties of the codec and of serialisation\<close>

lemma read32le_write:
  "read32le (btc_uint32_write [] x @ rest) = x"
proof (rule bit_word_eqI)
  fix n :: nat
  assume "n < LENGTH(32)"
  then have n: "n < 32" by simp
  consider "n < 8" | "8 \<le> n" "n < 16" | "16 \<le> n" "n < 24" | "24 \<le> n"
    by linarith
  then show "bit (read32le (btc_uint32_write [] x @ rest)) n = bit x n"
  proof cases
    case 1
    then show ?thesis
      by (simp add: read32le_def btc_uint32_write_def bit_simps)
  next
    case 2
    then show ?thesis using n
      by (auto simp add: read32le_def btc_uint32_write_def bit_simps)
  next
    case 3
    then show ?thesis using n
      by (auto simp add: read32le_def btc_uint32_write_def bit_simps)
  next
    case 4
    then show ?thesis using n
      by (auto simp add: read32le_def btc_uint32_write_def bit_simps)
  qed
qed

lemma uint32_write_append:
  "btc_uint32_write zp x = zp @ btc_uint32_write [] x"
  by (simp add: btc_uint32_write_def)

lemma length_uint32_write:
  "length (btc_uint32_write zp x) = length zp + 4"
  by (simp add: btc_uint32_write_def)

lemma uint32_read_write:
  "4 \<le> xn \<Longrightarrow>
   btc_uint32_read (btc_uint32_write [] x @ rest) xn = Some (x, rest, xn - 4)"
  by (simp add: btc_uint32_read_def read32le_write length_uint32_write)

lemma raw_read_append:
  "length bs = zn \<Longrightarrow> zn \<le> xn \<Longrightarrow>
   btc_raw_read zn (bs @ rest) xn = Some (bs, rest, xn - zn)"
  by (simp add: btc_raw_read_def)

lemma header_write_layout:
  "btc_header_write zp x =
     zp @ btc_uint32_write [] (version x) @ take 32 (prev_block x) @
     take 32 (merkle_root x) @ btc_uint32_write [] (time x) @
     btc_uint32_write [] (bits x) @ btc_uint32_write [] (nonce x)"
  by (simp add: btc_header_write_def btc_raw_write_def btc_uint32_write_def)

lemma length_header_write:
  "header_ok x \<Longrightarrow> length (btc_header_write zp x) = length zp + 80"
  by (simp add: header_write_layout header_ok_def length_uint32_write)

lemma header_read_write:
  assumes ok: "header_ok x" and n: "80 \<le> xn"
  shows "btc_header_read z (btc_header_write [] x @ rest) xn = (True, x, rest, xn - 80)"
proof -
  have p: "take 32 (prev_block x) = prev_block x"
    and m: "take 32 (merkle_root x) = merkle_root x"
    using ok by (simp_all add: header_ok_def)
  have l: "length (prev_block x) = 32" "length (merkle_root x) = 32"
    using ok by (simp_all add: header_ok_def)
  show ?thesis
    using n
    by (simp add: btc_header_read_def header_write_layout p m l
        uint32_read_write raw_read_append)
qed

lemma header_read_short:
  "xn < 80 \<Longrightarrow>
   btc_header_read z xp xn =
     (False,
      z\<lparr>version := if 4 \<le> xn then read32le xp else version z,
        prev_block := if 36 \<le> xn then take 32 (drop 4 xp) else prev_block z,
        merkle_root := if 68 \<le> xn then take 32 (drop 36 xp) else merkle_root z,
        time := if 72 \<le> xn then read32le (drop 68 xp) else time z,
        bits := if 76 \<le> xn then read32le (drop 72 xp) else bits z,
        nonce := nonce z\<rparr>,
      drop (parsed_size xn) xp, xn - parsed_size xn) \<and>
   parsed_size xn \<in> {0, 4, 36, 68, 72, 76}"
proof -
  assume b: "xn < 80"
  consider "xn < 4" | "4 \<le> xn" "xn < 36" | "36 \<le> xn" "xn < 68"
    | "68 \<le> xn" "xn < 72" | "72 \<le> xn" "xn < 76" | "76 \<le> xn"
    by linarith
  then show ?thesis
  proof cases
    case 1
    then show ?thesis
      by (simp add: btc_header_read_def btc_uint32_read_def parsed_size_def)
  next
    case 2
    then show ?thesis
      by (simp add: btc_header_read_def btc_uint32_read_def btc_raw_read_def parsed_size_def)
  next
    case 3
    then show ?thesis
      by (simp add: btc_header_read_def btc_uint32_read_def btc_raw_read_def parsed_size_def)
  next
    case 4
    then show ?thesis
      by (simp add: btc_header_read_def btc_uint32_read_def btc_raw_read_def parsed_size_def)
  next
    case 5
    then show ?thesis
      by (simp add: btc_header_read_def btc_uint32_read_def btc_raw_read_def parsed_size_def)
  next
    case 6
    then show ?thesis using b
      by (simp add: btc_header_read_def btc_uint32_read_def btc_raw_read_def parsed_size_def)
  qed
qed


lemma header_read_long:
  "80 \<le> xn \<Longrightarrow>
      btc_header_read z xp xn =
        (True,
         \<lparr>version = read32le xp,
          prev_block = take 32 (drop 4 xp),
          merkle_root = take 32 (drop 36 xp),
          time = read32le (drop 68 xp),
          bits = read32le (drop 72 xp),
          nonce = read32le (drop 76 xp)\<rparr>,
         drop 80 xp, xn - 80)"
  by (cases z) (auto simp add: btc_header_read_def btc_uint32_read_def btc_raw_read_def)

text \<open>
  Claim C4 (round trip). For every header \<open>H\<close> whose two hashes have the 32 bytes of
  their array type, \<^verbatim>\<open>btc_header_write\<close> produces exactly 80 bytes, and
  \<^verbatim>\<open>btc_header_read\<close> applied to them, whatever the header \<open>z\<close> it writes into,
  succeeds, returns a header equal to \<open>H\<close> in all six fields, and leaves an empty
  buffer with remaining count 0: it has consumed exactly 80 bytes.
\<close>

theorem header_roundtrip:
  "header_ok H \<Longrightarrow>
   length (btc_header_write [] H) = 80 \<and>
   btc_header_read z (btc_header_write [] H) 80 = (True, H, [], 0)"
  using header_read_write [of H 80 z "[]"] length_header_write [of H "[]"]
  by simp

theorem header_roundtrip_witness:
  "header_ok sample_header \<and>
   length (btc_header_write [] sample_header) = 80 \<and>
   btc_header_read btc_header_init (btc_header_write [] sample_header) 80 =
     (True, sample_header, [], 0)"
proof -
  have ok: "header_ok sample_header"
    by (simp add: header_ok_def sample_header_def)
  show ?thesis
    using ok header_roundtrip [OF ok, of btc_header_init] by simp
qed

text \<open>
  Claim C5 (read at the 80-byte boundary). With fewer than 80 remaining bytes
  \<^verbatim>\<open>btc_header_read\<close> returns false. With 80 or more it returns true, every field is
  the value of its bytes at the offsets 0, 4, 36, 68, 72 and 76, the cursor has
  advanced by 80 and the remaining count has dropped by 80; the contents of the bytes
  play no role.
\<close>

theorem header_read_boundary:
  "(xn < 80 \<longrightarrow> fst (btc_header_read z xp xn) = False) \<and>
   (80 \<le> xn \<longrightarrow>
      btc_header_read z xp xn =
        (True,
         \<lparr>version = read32le xp,
          prev_block = take 32 (drop 4 xp),
          merkle_root = take 32 (drop 36 xp),
          time = read32le (drop 68 xp),
          bits = read32le (drop 72 xp),
          nonce = read32le (drop 76 xp)\<rparr>,
         drop 80 xp, xn - 80))"
  using header_read_short [of xn z xp] header_read_long [of xn z xp] by simp

theorem header_read_boundary_witness:
  "fst (btc_header_read btc_header_init (replicate 79 1) 79) = False \<and>
   btc_header_read btc_header_init (replicate 80 1) 80 =
     (True,
      \<lparr>version = 0x01010101, prev_block = replicate 32 1, merkle_root = replicate 32 1,
       time = 0x01010101, bits = 0x01010101, nonce = 0x01010101\<rparr>,
      [], 0)"
  using header_read_boundary [of 79 btc_header_init "replicate 79 1"]
    header_read_boundary [of 80 btc_header_init "replicate 80 1"]
  by (simp add: read32le_def)

text \<open>
  Claim C10 (partial mutation on failure). When \<^verbatim>\<open>btc_header_read\<close> fails, the
  fields before the first one that did not fit hold their parsed values, that field and
  the later ones keep what the header held before, and the cursor and the remaining
  count have moved by the total size of the parsed fields, which is one of 0, 4, 36,
  68, 72 and 76.
\<close>

theorem header_read_failure:
  "xn < 80 \<Longrightarrow>
   btc_header_read z xp xn =
     (False,
      z\<lparr>version := if 4 \<le> xn then read32le xp else version z,
        prev_block := if 36 \<le> xn then take 32 (drop 4 xp) else prev_block z,
        merkle_root := if 68 \<le> xn then take 32 (drop 36 xp) else merkle_root z,
        time := if 72 \<le> xn then read32le (drop 68 xp) else time z,
        bits := if 76 \<le> xn then read32le (drop 72 xp) else bits z,
        nonce := nonce z\<rparr>,
      drop (parsed_size xn) xp, xn - parsed_size xn) \<and>
   parsed_size xn \<in> {0, 4, 36, 68, 72, 76}"
  using header_read_short [of xn z xp] by simp


theorem header_read_failure_witness:
  "(40 :: nat) < 80 \<and>
   btc_header_read btc_header_init (replicate 40 1) 40 =
     (False,
      \<lparr>version = 0x01010101, prev_block = replicate 32 1, merkle_root = replicate 32 0,
       time = 0, bits = 0, nonce = 0\<rparr>,
      replicate 4 1, 4)"
  using header_read_failure [of 40 btc_header_init "replicate 40 1"]
  by (simp add: read32le_def parsed_size_def btc_header_init_def)

section \<open>Properties of hashing and verification\<close>

lemma header_hash_prefix:
  "btc_header_hash ops H =
     btc_hash256_final ops (btc_uint32_update ops (mine_prefix ops H) (nonce H))"
  by (simp add: btc_header_hash_def mine_prefix_def)

text \<open>
  Claim C1 (verify agreement). For every header, \<^verbatim>\<open>btc_header_verify\<close> returns true
  exactly when \<^verbatim>\<open>btc_compact_export\<close> of the bits succeeds with a target \<open>R\<close>, the
  contents of the 32-byte array \<^verbatim>\<open>target\<close>, and \<^verbatim>\<open>btc_hash_compare\<close> of the header's
  hash with \<open>R\<close> is at most 0; when the export fails the result is false. This holds
  for every hasher, export function and comparison.
\<close>

theorem header_verify_iff:
  "btc_header_verify ops compact_export hash_compare H =
     (\<exists>R. compact_export (bits H) = Some R \<and>
          hash_compare (btc_header_hash ops H) R \<le> 0) \<and>
   (compact_export (bits H) = None \<longrightarrow>
      \<not> btc_header_verify ops compact_export hash_compare H)"
  by (cases "compact_export (bits H)") (simp_all add: btc_header_verify_def)

theorem header_verify_iff_witness:
  "reject_all (bits sample_header) = None \<and>
   \<not> btc_header_verify (stream_hash256 nonce_digest) reject_all first_byte_compare
       sample_header"
  using header_verify_iff [of "stream_hash256 nonce_digest" reject_all first_byte_compare
      sample_header]
  by (simp add: reject_all_def)

text \<open>
  Claim C2 (hash of the serialised form). For a streaming hasher and every header,
  the hash that \<^verbatim>\<open>btc_header_hash\<close> computes with one update per field equals the
  one-shot digest of the buffer that \<^verbatim>\<open>btc_header_write\<close> produces, and that buffer
  has exactly 80 bytes.
\<close>

theorem header_hash_serialized:
  assumes "hash256_streaming ops" and "header_ok H"
  shows "length (btc_header_write [] H) = 80 \<and>
         btc_header_hash ops H = btc_hash256 ops (btc_header_write [] H)"
proof -
  have s: "btc_hash256_update ops (btc_hash256_update ops ctx xp) yp =
      btc_hash256_update ops ctx (xp @ yp)" for ctx xp yp
    using assms(1) by (simp add: hash256_streaming_def)
  have "btc_header_hash ops H = btc_hash256 ops (btc_header_write [] H)"
    by (simp add: btc_header_hash_def btc_hash256_def header_write_layout
        btc_uint32_update_def btc_raw_update_def s)
  then show ?thesis
    using assms(2) length_header_write [of H "[]"] by simp
qed

theorem header_hash_serialized_witness:
  "hash256_streaming (stream_hash256 nonce_digest) \<and> header_ok sample_header \<and>
   length (btc_header_write [] sample_header) = 80 \<and>
   btc_header_hash (stream_hash256 nonce_digest) sample_header =
     btc_hash256 (stream_hash256 nonce_digest) (btc_header_write [] sample_header)"
proof -
  have a: "hash256_streaming (stream_hash256 nonce_digest)"
    by (simp add: hash256_streaming_def stream_hash256_def)
  have b: "header_ok sample_header"
    by (simp add: header_ok_def sample_header_def)
  show ?thesis
    using a b header_hash_serialized [OF a b] by simp
qed

section \<open>Properties of mining\<close>

lemma mine_prefix_nonce [simp]:
  "mine_prefix ops (x\<lparr>nonce := n\<rparr>) = mine_prefix ops x"
  by (simp add: mine_prefix_def)

lemma mine_prefix_nonce_time [simp]:
  "mine_prefix ops (x\<lparr>nonce := n, time := t\<rparr>) = mine_prefix ops (x\<lparr>time := t\<rparr>)"
  by (simp add: mine_prefix_def)

lemma clock_arg_Suc:
  "clock_arg adjtime a (Suc n) = snd (adjtime (clock_arg adjtime a n))"
  by (simp add: clock_arg_def)

lemma mine_step_Restart:
  "pc s = Restart \<Longrightarrow>
   mine_step ops hash_compare target limit adjtime s =
     s\<lparr>pc := Attempt (mine_prefix ops ((hdr s)\<lparr>time := fst (adjtime (arg s))\<rparr>)),
       hdr := (hdr s)\<lparr>time := fst (adjtime (arg s))\<rparr>,
       arg := snd (adjtime (arg s)), ticks := ticks s + 1\<rparr>"
  by (simp add: mine_step_def split: prod.split)

lemma mine_step_hit:
  "pc s = Attempt pre \<Longrightarrow>
   hash_compare (btc_hash256_final ops (btc_uint32_update ops pre (nonce (hdr s)))) target \<le> 0 \<Longrightarrow>
   mine_step ops hash_compare target limit adjtime s =
     s\<lparr>pc := Return True, finals := finals s + 1\<rparr>"
  by (simp add: mine_step_def)

lemma mine_step_miss:
  "pc s = Attempt pre \<Longrightarrow>
   \<not> hash_compare (btc_hash256_final ops (btc_uint32_update ops pre (nonce (hdr s)))) target \<le> 0 \<Longrightarrow>
   mine_step ops hash_compare target limit adjtime s =
     s\<lparr>pc := (if 0 < limit \<and> attempt s + 1 = limit then Return False
              else if nonce (hdr s) + 1 \<noteq> 0 then Attempt pre else Restart),
       hdr := (hdr s)\<lparr>nonce := nonce (hdr s) + 1\<rparr>,
       attempt := (if 0 < limit then attempt s + 1 else attempt s),
       finals := finals s + 1\<rparr>"
  by (simp add: mine_step_def Let_def)

lemma mine_inv_start:
  "mine_inv ops hash_compare target adjtime a x (mine_start x a)"
  by (simp add: mine_inv_def mine_start_def clock_arg_def)

lemma mine_inv_step:
  assumes "mine_inv ops hash_compare target adjtime a x s"
  shows "mine_inv ops hash_compare target adjtime a x
           (mine_step ops hash_compare target limit adjtime s)"
proof (cases "pc s")
  case Restart
  then show ?thesis
    using assms
    by (simp add: mine_step_Restart mine_inv_def clock_arg_Suc clock_val_def)
next
  case (Attempt pre)
  show ?thesis
  proof (cases "hash_compare (btc_hash256_final ops
        (btc_uint32_update ops pre (nonce (hdr s)))) target \<le> 0")
    case True
    then show ?thesis
      using assms Attempt
      by (simp add: mine_step_hit [where hash_compare = hash_compare and ops = ops and target = target, OF Attempt True] mine_inv_def header_hash_prefix)
  next
    case False
    then show ?thesis
      using assms Attempt
      by (simp add: mine_step_miss [where hash_compare = hash_compare and ops = ops and target = target, OF Attempt False] mine_inv_def ac_simps)
  qed
next
  case (Return b)
  then show ?thesis
    using assms by (simp add: mine_step_def)
qed

lemma mine_inv_result:
  assumes "btc_header_mine ops hash_compare target limit adjtime a x = Some s"
  shows "mine_inv ops hash_compare target adjtime a x s"
  using assms unfolding btc_header_mine_def
  by (rule while_option_rule [where P = "mine_inv ops hash_compare target adjtime a x", rotated])
     (simp_all add: mine_inv_step mine_inv_start)

lemma mine_result_returned:
  assumes "btc_header_mine ops hash_compare target limit adjtime a x = Some s"
  shows "\<exists>b. pc s = Return b"
  using while_option_stop [OF assms [unfolded btc_header_mine_def]]
  by (cases "pc s") (simp_all add: mine_running_def)

lemma nonce_wrap_iff:
  "(n + word_of_nat j + 1 = (0 :: u32)) = ((unat n + j + 1) mod 2 ^ 32 = 0)"
proof -
  have "n + word_of_nat j + 1 = (word_of_nat (unat n + j + 1) :: u32)"
    by simp
  then show ?thesis
    by (simp only: word_of_nat_eq_0_iff mod_eq_0_iff_dvd) simp
qed

lemma search_wraps_Suc:
  "search_wraps x (Suc j) =
     (if nonce x + word_of_nat j + 1 = 0 then search_wraps x j + 1 else search_wraps x j)"
  using div_Suc [of "unat (nonce x) + j" "2 ^ 32"]
  by (simp add: search_wraps_def nonce_wrap_iff)

lemma search_wraps_0: "search_wraps x 0 = 0"
proof -
  have "unat (nonce x) < 2 ^ 32"
    using unsigned_less [of "nonce x", where 'a = nat] by simp
  then show ?thesis by (simp add: search_wraps_def)
qed

lemma attempt_limit_iff:
  fixes limit :: u64
  assumes "j < unat limit"
  shows "(word_of_nat j + 1 = limit) = (Suc j = unat limit)"
proof
  assume l: "word_of_nat j + 1 = limit"
  have "(word_of_nat (Suc j) :: u64) = word_of_nat j + 1" by simp
  with l have "unat limit = unat (word_of_nat (Suc j) :: u64)" by (simp only:)
  also have "\<dots> = Suc j mod 2 ^ 64" by (simp only: unat_of_nat) simp
  also have "\<dots> = Suc j"
  proof -
    have "unat limit < 2 ^ 64"
      using unsigned_less [of limit, where 'a = nat] by simp
    with assms show ?thesis by simp
  qed
  finally show "Suc j = unat limit" by simp
next
  assume "Suc j = unat limit"
  then have "(word_of_nat (Suc j) :: u64) = word_of_nat (unat limit)" by simp
  then show "word_of_nat j + 1 = limit" by (simp add: ac_simps)
qed

lemma search_state_running:
  "mine_running (search_state ops limit adjtime a x j)"
  by (simp add: mine_running_def search_state_def)

lemma search_state_step_hit:
  assumes "search_hit ops hash_compare target adjtime a x j"
  shows "mine_step ops hash_compare target limit adjtime (search_state ops limit adjtime a x j) =
           (search_state ops limit adjtime a x j)\<lparr>pc := Return True, finals := j + 1\<rparr>"
proof -
  let ?s = "search_state ops limit adjtime a x j"
  let ?pre = "mine_prefix ops (search_hdr adjtime a x j)"
  have p: "pc ?s = Attempt ?pre" by (simp add: search_state_def)
  have h: "hash_compare (btc_hash256_final ops
      (btc_uint32_update ops ?pre (nonce (hdr ?s)))) target \<le> 0"
    using assms by (simp add: search_hit_def header_hash_prefix search_state_def)
  show ?thesis
    using mine_step_hit [where hash_compare = hash_compare and ops = ops
        and target = target and limit = limit and adjtime = adjtime, OF p h]
    by (simp add: search_state_def)
qed

lemma search_state_step_miss:
  assumes "\<not> search_hit ops hash_compare target adjtime a x j"
  shows "mine_step ops hash_compare target limit adjtime (search_state ops limit adjtime a x j) =
           (search_state ops limit adjtime a x j)
             \<lparr>pc := (if 0 < limit \<and> word_of_nat j + 1 = limit then Return False
                     else if nonce x + word_of_nat j + 1 \<noteq> 0
                     then Attempt (mine_prefix ops (search_hdr adjtime a x j)) else Restart),
              hdr := (search_hdr adjtime a x j)\<lparr>nonce := nonce x + word_of_nat j + 1\<rparr>,
              attempt := (if 0 < limit then word_of_nat j + 1 else 0),
              finals := j + 1\<rparr>"
proof -
  let ?s = "search_state ops limit adjtime a x j"
  let ?pre = "mine_prefix ops (search_hdr adjtime a x j)"
  have p: "pc ?s = Attempt ?pre" by (simp add: search_state_def)
  have h: "\<not> hash_compare (btc_hash256_final ops
      (btc_uint32_update ops ?pre (nonce (hdr ?s)))) target \<le> 0"
    using assms by (simp add: search_hit_def header_hash_prefix search_state_def)
  show ?thesis
    using mine_step_miss [where hash_compare = hash_compare and ops = ops
        and target = target and limit = limit and adjtime = adjtime, OF p h]
    by (simp add: search_state_def search_hdr_def)
qed

lemma search_state_next:
  assumes miss: "\<not> search_hit ops hash_compare target adjtime a x j"
    and lim: "0 < limit \<Longrightarrow> Suc j < unat limit"
  shows "while_option mine_running (mine_step ops hash_compare target limit adjtime)
           (search_state ops limit adjtime a x j) =
         while_option mine_running (mine_step ops hash_compare target limit adjtime)
           (search_state ops limit adjtime a x (Suc j))"
proof -
  let ?step = "mine_step ops hash_compare target limit adjtime"
  let ?s = "search_state ops limit adjtime a x j"
  have nl: "\<not> (0 < limit \<and> word_of_nat j + 1 = limit)"
  proof
    assume c: "0 < limit \<and> word_of_nat j + 1 = limit"
    then have "Suc j < unat limit" using lim by simp
    then have "j < unat limit" "Suc j \<noteq> unat limit" by simp_all
    with attempt_limit_iff [of j limit] c show False by simp
  qed
  have u: "while_option mine_running ?step ?s = while_option mine_running ?step (?step ?s)"
    by (subst while_option_unfold) (simp add: search_state_running)
  show ?thesis
  proof (cases "nonce x + word_of_nat j + 1 = 0")
    case False
    have "?step ?s = search_state ops limit adjtime a x (Suc j)"
      unfolding search_state_step_miss [OF miss]
      using False nl
      by (simp add: search_state_def search_hdr_def search_wraps_Suc ac_simps)
    with u show ?thesis by simp
  next
    case True
    have r: "?step ?s =
        ?s\<lparr>pc := Restart,
           hdr := (search_hdr adjtime a x j)\<lparr>nonce := nonce x + word_of_nat j + 1\<rparr>,
           attempt := (if 0 < limit then word_of_nat j + 1 else 0),
           finals := j + 1\<rparr>"
      unfolding search_state_step_miss [OF miss]
      using True nl by simp
    have "?step (?step ?s) = search_state ops limit adjtime a x (Suc j)"
      unfolding r
      using True
      by (simp add: mine_step_Restart search_state_def search_hdr_def
          search_wraps_Suc clock_val_def clock_arg_Suc ac_simps)
    moreover have "while_option mine_running ?step (?step ?s) =
        while_option mine_running ?step (?step (?step ?s))"
      by (subst while_option_unfold) (simp add: r mine_running_def)
    ultimately show ?thesis using u by simp
  qed
qed

lemma mine_start_search:
  "btc_header_mine ops hash_compare target limit adjtime a x =
     while_option mine_running (mine_step ops hash_compare target limit adjtime)
       (search_state ops limit adjtime a x 0)"
proof -
  let ?step = "mine_step ops hash_compare target limit adjtime"
  have "?step (mine_start x a) = search_state ops limit adjtime a x 0"
    by (simp add: mine_step_Restart mine_start_def search_state_def search_hdr_def
        search_wraps_0 clock_val_def clock_arg_def)
  moreover have "while_option mine_running ?step (mine_start x a) =
      while_option mine_running ?step (?step (mine_start x a))"
    by (subst while_option_unfold) (simp add: mine_running_def mine_start_def)
  ultimately show ?thesis by (simp add: btc_header_mine_def)
qed

lemma mine_reaches:
  assumes "\<forall>i<j. \<not> search_hit ops hash_compare target adjtime a x i"
    and "0 < limit \<longrightarrow> j < unat limit"
  shows "btc_header_mine ops hash_compare target limit adjtime a x =
     while_option mine_running (mine_step ops hash_compare target limit adjtime)
       (search_state ops limit adjtime a x j)"
  using assms
proof (induction j)
  case 0
  show ?case by (rule mine_start_search)
next
  case (Suc j)
  have "\<forall>i<j. \<not> search_hit ops hash_compare target adjtime a x i"
    using Suc.prems(1) by simp
  moreover have "0 < limit \<longrightarrow> j < unat limit"
    using Suc.prems(2) by auto
  ultimately have "btc_header_mine ops hash_compare target limit adjtime a x =
     while_option mine_running (mine_step ops hash_compare target limit adjtime)
       (search_state ops limit adjtime a x j)"
    by (rule Suc.IH)
  moreover have "\<not> search_hit ops hash_compare target adjtime a x j"
    using Suc.prems(1) by simp
  ultimately show ?case
    using search_state_next [where ops = ops and hash_compare = hash_compare
        and target = target and limit = limit and adjtime = adjtime and a = a
        and x = x and j = j] Suc.prems(2)
    by simp
qed

lemma mine_first_hit:
  assumes "\<forall>i<j. \<not> search_hit ops hash_compare target adjtime a x i"
    and "search_hit ops hash_compare target adjtime a x j"
    and "0 < limit \<longrightarrow> j < unat limit"
  shows "btc_header_mine ops hash_compare target limit adjtime a x =
     Some ((search_state ops limit adjtime a x j)\<lparr>pc := Return True, finals := j + 1\<rparr>)"
proof -
  let ?step = "mine_step ops hash_compare target limit adjtime"
  let ?s = "search_state ops limit adjtime a x j"
  have "while_option mine_running ?step ?s = while_option mine_running ?step (?step ?s)"
    by (subst while_option_unfold) (simp add: search_state_running)
  also have "\<dots> = Some (?step ?s)"
    by (subst while_option_unfold)
       (simp add: search_state_step_hit [OF assms(2)] mine_running_def)
  finally show ?thesis
    using mine_reaches [OF assms(1) assms(3)] search_state_step_hit [OF assms(2), of limit]
    by simp
qed

lemma mine_exhaust:
  assumes "\<forall>i<unat limit. \<not> search_hit ops hash_compare target adjtime a x i"
    and "0 < limit" and "Suc j = unat limit"
  shows "btc_header_mine ops hash_compare target limit adjtime a x =
     Some ((search_state ops limit adjtime a x j)
       \<lparr>pc := Return False,
        hdr := (search_hdr adjtime a x j)\<lparr>nonce := nonce x + word_of_nat (unat limit)\<rparr>,
        attempt := limit, finals := unat limit\<rparr>)"
proof -
  let ?step = "mine_step ops hash_compare target limit adjtime"
  let ?s = "search_state ops limit adjtime a x j"
  have j: "j < unat limit" using assms(3) by simp
  have miss: "\<not> search_hit ops hash_compare target adjtime a x j"
    using assms(1) j by blast
  have lim: "word_of_nat j + 1 = limit"
    using attempt_limit_iff [OF j] assms(3) by simp
  have st: "?step ?s =
      ?s\<lparr>pc := Return False,
         hdr := (search_hdr adjtime a x j)\<lparr>nonce := nonce x + word_of_nat (unat limit)\<rparr>,
         attempt := limit, finals := unat limit\<rparr>"
  proof -
    have "nonce x + word_of_nat j + 1 = nonce x + word_of_nat (Suc j)"
      by simp
    then have n: "nonce x + word_of_nat j + 1 = nonce x + word_of_nat (unat limit)"
      by (simp only: assms(3))
    have f: "j + 1 = unat limit" using assms(3) by simp
    show ?thesis
      unfolding search_state_step_miss [OF miss] n f
      using assms(2) lim by simp
  qed
  have "while_option mine_running ?step ?s = while_option mine_running ?step (?step ?s)"
    by (subst while_option_unfold) (simp add: search_state_running)
  also have "\<dots> = Some (?step ?s)"
    by (subst while_option_unfold) (simp add: st mine_running_def)
  finally have "while_option mine_running ?step ?s = Some (?step ?s)" .
  moreover have "btc_header_mine ops hash_compare target limit adjtime a x =
      while_option mine_running ?step ?s"
    using mine_reaches [where j = j and limit = limit and ops = ops
        and hash_compare = hash_compare and target = target and adjtime = adjtime
        and a = a and x = x] assms(1) j
    by simp
  ultimately show ?thesis using st by simp
qed

text \<open>
  Claim C3 (mine correctness). Whenever \<^verbatim>\<open>btc_header_mine\<close> returns true, for every
  limit and so for the limit 0, the hash of the header as it is at the return compares
  at most 0 with the target. The nonce in the header is the one of the last, winning
  attempt: it has advanced once for each of the earlier, failed finalisations and no
  further; the time in the header is the value of the latest clock call, the one under
  which the winning prefix was taken.
\<close>

theorem mine_success:
  assumes "btc_header_mine ops hash_compare target limit adjtime a H = Some s"
    and "pc s = Return True"
  shows "hash_compare (btc_header_hash ops (hdr s)) target \<le> 0 \<and>
         0 < finals s \<and> nonce (hdr s) = nonce H + of_nat (finals s - 1) \<and>
         0 < ticks s \<and> time (hdr s) = clock_val adjtime a (ticks s - 1)"
  using mine_inv_result [OF assms(1)] assms(2)
  by (simp add: mine_inv_def)

lemmas sample_defs =
  btc_header_mine_def while_option_unfold mine_running_def mine_start_def
  mine_step_def mine_prefix_def btc_uint32_update_def btc_raw_update_def
  btc_uint32_write_def stream_hash256_def nonce_digest_def first_byte_compare_def
  zero_target_def sample_clock_def sample_header_def btc_header_hash_def

lemma sample_run_success:
  "btc_header_mine (stream_hash256 nonce_digest) first_byte_compare zero_target 0
     sample_clock 0 (sample_header\<lparr>nonce := 0xFFFFFFFE\<rparr>) =
   Some \<lparr>pc = Return True, hdr = sample_header\<lparr>time := 1001, nonce := 0\<rparr>,
         attempt = 0, arg = 2, finals = 3, ticks = 2\<rparr>"
  by (simp add: sample_defs)

lemma sample_run_exhaust:
  "btc_header_mine (stream_hash256 nonce_digest) first_byte_compare zero_target 2
     sample_clock 0 (sample_header\<lparr>nonce := 1\<rparr>) =
   Some \<lparr>pc = Return False, hdr = sample_header\<lparr>time := 1000, nonce := 3\<rparr>,
         attempt = 2, arg = 1, finals = 2, ticks = 1\<rparr>"
  by (simp add: sample_defs)

theorem mine_success_witness:
  "btc_header_mine (stream_hash256 nonce_digest) first_byte_compare zero_target 0
     sample_clock 0 (sample_header\<lparr>nonce := 0xFFFFFFFE\<rparr>) =
   Some \<lparr>pc = Return True, hdr = sample_header\<lparr>time := 1001, nonce := 0\<rparr>,
         attempt = 0, arg = 2, finals = 3, ticks = 2\<rparr> \<and>
   first_byte_compare
     (btc_header_hash (stream_hash256 nonce_digest) (sample_header\<lparr>time := 1001, nonce := 0\<rparr>))
     zero_target \<le> 0 \<and>
   (0 :: u32) = 0xFFFFFFFE + of_nat (3 - 1) \<and>
   (1001 :: u32) = clock_val sample_clock 0 (2 - 1)"
  using mine_success [OF sample_run_success] sample_run_success
  by simp

text \<open>
  Claim C9 (frame). Whatever \<^verbatim>\<open>btc_header_mine\<close> returns, the version, the previous
  block hash, the Merkle root and the bits of the header at the return are those at
  entry: only the time and the nonce change.
\<close>

theorem mine_frame:
  assumes "btc_header_mine ops hash_compare target limit adjtime a H = Some s"
  shows "version (hdr s) = version H \<and> prev_block (hdr s) = prev_block H \<and>
         merkle_root (hdr s) = merkle_root H \<and> bits (hdr s) = bits H"
  using mine_inv_result [OF assms]
  by (simp add: mine_inv_def)

theorem mine_frame_witness:
  "btc_header_mine (stream_hash256 nonce_digest) first_byte_compare zero_target 2
     sample_clock 0 (sample_header\<lparr>nonce := 1\<rparr>) =
   Some \<lparr>pc = Return False, hdr = sample_header\<lparr>time := 1000, nonce := 3\<rparr>,
         attempt = 2, arg = 1, finals = 2, ticks = 1\<rparr> \<and>
   version (sample_header\<lparr>time := 1000, nonce := 3\<rparr>) = version (sample_header\<lparr>nonce := 1\<rparr>) \<and>
   prev_block (sample_header\<lparr>time := 1000, nonce := 3\<rparr>) = prev_block (sample_header\<lparr>nonce := 1\<rparr>) \<and>
   merkle_root (sample_header\<lparr>time := 1000, nonce := 3\<rparr>) = merkle_root (sample_header\<lparr>nonce := 1\<rparr>) \<and>
   bits (sample_header\<lparr>time := 1000, nonce := 3\<rparr>) = bits (sample_header\<lparr>nonce := 1\<rparr>)"
  using mine_frame [OF sample_run_exhaust] sample_run_exhaust
  by simp

text \<open>
  Claim C6 (mine limit). With a limit \<open>k > 0\<close> \<^verbatim>\<open>btc_header_mine\<close> always returns, after
  at most \<open>k\<close> finalisations. When none of the first \<open>k\<close> attempts meets the target it
  returns false after exactly \<open>k\<close> finalisations, the nonce has advanced by \<open>k\<close> modulo
  \<open>2^32\<close>, and the time is the value of the latest clock call, the one of the most
  recent prefix computation: the clock has been called once at the start and once
  after each wrap of the nonce among the first \<open>k - 1\<close> increments.
\<close>

theorem mine_limit:
  assumes "0 < limit"
  shows "\<exists>s. btc_header_mine ops hash_compare target limit adjtime a H = Some s \<and>
           finals s \<le> unat limit \<and>
           ((\<forall>j<unat limit. \<not> search_hit ops hash_compare target adjtime a H j) \<longrightarrow>
              pc s = Return False \<and> finals s = unat limit \<and>
              nonce (hdr s) = nonce H + of_nat (unat limit) \<and>
              ticks s = search_wraps H (unat limit - 1) + 1 \<and>
              time (hdr s) = clock_val adjtime a (ticks s - 1))"
proof (cases "\<exists>j<unat limit. search_hit ops hash_compare target adjtime a H j")
  case True
  define j where "j = (LEAST j. j < unat limit \<and> search_hit ops hash_compare target adjtime a H j)"
  have j: "j < unat limit \<and> search_hit ops hash_compare target adjtime a H j"
    unfolding j_def using True by (rule LeastI_ex)
  have "\<not> search_hit ops hash_compare target adjtime a H i" if "i < j" for i
    using not_less_Least [of i "\<lambda>j. j < unat limit \<and> search_hit ops hash_compare target adjtime a H j"]
      that j by (auto simp: j_def)
  then have "btc_header_mine ops hash_compare target limit adjtime a H =
     Some ((search_state ops limit adjtime a H j)\<lparr>pc := Return True, finals := j + 1\<rparr>)"
    using j by (intro mine_first_hit) auto
  then show ?thesis using j True by auto
next
  case False
  then have miss: "\<forall>i<unat limit. \<not> search_hit ops hash_compare target adjtime a H i"
    by simp
  have k: "0 < unat limit" using assms by (simp add: unat_gt_0)
  define j where "j = unat limit - 1"
  have j: "Suc j = unat limit" using k by (simp add: j_def)
  show ?thesis
    using mine_exhaust [OF miss assms j]
    by (simp add: search_state_def search_hdr_def j_def)
qed

theorem mine_limit_witness:
  "(0 :: u64) < 2 \<and>
   \<not> search_hit (stream_hash256 nonce_digest) first_byte_compare zero_target sample_clock 0
       (sample_header\<lparr>nonce := 1\<rparr>) 0 \<and>
   \<not> search_hit (stream_hash256 nonce_digest) first_byte_compare zero_target sample_clock 0
       (sample_header\<lparr>nonce := 1\<rparr>) 1 \<and>
   (\<exists>s. btc_header_mine (stream_hash256 nonce_digest) first_byte_compare zero_target 2
          sample_clock 0 (sample_header\<lparr>nonce := 1\<rparr>) = Some s \<and>
        pc s = Return False \<and> finals s = 2 \<and> nonce (hdr s) = 3 \<and> ticks s = 1 \<and>
        time (hdr s) = 1000)"
proof -
  let ?hit = "search_hit (stream_hash256 nonce_digest) first_byte_compare zero_target
      sample_clock 0 (sample_header\<lparr>nonce := 1\<rparr>)"
  have l: "(0 :: u64) < 2" by simp
  have m0: "\<not> ?hit 0"
    by (simp add: search_hit_def search_hdr_def sample_defs)
  have m1: "\<not> ?hit 1"
    by (simp add: search_hit_def search_hdr_def sample_defs)
  have m: "\<forall>j<unat (2 :: u64). \<not> ?hit j"
  proof (intro allI impI)
    fix j :: nat assume "j < unat (2 :: u64)"
    then have "j = 0 \<or> j = 1" by auto
    then show "\<not> ?hit j" using m0 m1 by auto
  qed
  have w: "search_wraps (sample_header\<lparr>nonce := 1\<rparr>) (unat (2 :: u64) - 1) = 0"
    by (simp add: search_wraps_def)
  have c: "clock_val sample_clock 0 0 = 1000"
    by (simp add: clock_val_def clock_arg_def sample_clock_def)
  show ?thesis
    using mine_limit [OF l, of "stream_hash256 nonce_digest" first_byte_compare zero_target
        sample_clock 0 "sample_header\<lparr>nonce := 1\<rparr>"] m m0 m1 w c
    by auto
qed

lemma mine_inv_funpow:
  "mine_inv ops hash_compare target adjtime a x
     ((mine_step ops hash_compare target limit adjtime ^^ n) (mine_start x a))"
  by (induction n) (simp_all add: mine_inv_start mine_inv_step)

text \<open>
  Claim C7, amended (clock and prefix after a wrap). From a state at the top of the
  inner loop with nonce \<^verbatim>\<open>0xFFFFFFFF\<close> whose attempt fails and does not exhaust the limit
  (the limit is 0, or the incremented attempt count differs from it), the nonce wraps
  to 0, the clock callback is called again, the time becomes its new value, the prefix
  snapshot is taken again from the header with that time, and the search goes on at
  nonce 0. Moreover in every state that a run of \<^verbatim>\<open>btc_header_mine\<close> reaches at the top
  of the inner loop, the snapshot is the prefix of the header as it stands, so every
  attempt hashes the header's current time.
\<close>

theorem mine_wrap_requeries:
  assumes "pc s = Attempt pre"
    and "nonce (hdr s) = 0xFFFFFFFF"
    and "\<not> hash_compare (btc_hash256_final ops (btc_uint32_update ops pre (nonce (hdr s)))) target \<le> 0"
    and "\<not> (0 < limit \<and> attempt s + 1 = limit)"
  shows "wrap_requeries ops hash_compare target limit adjtime s \<and>
         (\<forall>n p. pc ((mine_step ops hash_compare target limit adjtime ^^ n) (mine_start H a)) = Attempt p \<longrightarrow>
            p = mine_prefix ops
                  (hdr ((mine_step ops hash_compare target limit adjtime ^^ n) (mine_start H a))))"
proof
  have n: "nonce (hdr s) + 1 = 0" using assms(2) by simp
  have s1: "mine_step ops hash_compare target limit adjtime s =
      s\<lparr>pc := Restart, hdr := (hdr s)\<lparr>nonce := 0\<rparr>,
        attempt := (if 0 < limit then attempt s + 1 else attempt s),
        finals := finals s + 1\<rparr>"
    using mine_step_miss [where hash_compare = hash_compare and ops = ops
        and target = target and limit = limit and adjtime = adjtime, OF assms(1) assms(3)]
      assms(4) n
    by simp
  show "wrap_requeries ops hash_compare target limit adjtime s"
    unfolding wrap_requeries_def Let_def s1
    by (simp add: mine_step_Restart)
next
  show "\<forall>n p. pc ((mine_step ops hash_compare target limit adjtime ^^ n) (mine_start H a)) = Attempt p \<longrightarrow>
            p = mine_prefix ops
                  (hdr ((mine_step ops hash_compare target limit adjtime ^^ n) (mine_start H a)))"
  proof (intro allI impI)
    fix n p
    assume "pc ((mine_step ops hash_compare target limit adjtime ^^ n) (mine_start H a)) = Attempt p"
    then show "p = mine_prefix ops
        (hdr ((mine_step ops hash_compare target limit adjtime ^^ n) (mine_start H a)))"
      using mine_inv_funpow [where ops = ops and hash_compare = hash_compare
          and target = target and adjtime = adjtime and a = a and x = H and limit = limit
          and n = n]
      by (simp add: mine_inv_def)
  qed
qed

theorem mine_wrap_requeries_witness:
  "pc sample_wrap_state =
     Attempt (mine_prefix (stream_hash256 nonce_digest) (sample_header\<lparr>time := 1000\<rparr>)) \<and>
   nonce (hdr sample_wrap_state) = 0xFFFFFFFF \<and>
   \<not> first_byte_compare
       (btc_hash256_final (stream_hash256 nonce_digest)
          (btc_uint32_update (stream_hash256 nonce_digest)
             (mine_prefix (stream_hash256 nonce_digest) (sample_header\<lparr>time := 1000\<rparr>))
             (nonce (hdr sample_wrap_state))))
       zero_target \<le> 0 \<and>
   \<not> ((0 :: u64) < 0 \<and> attempt sample_wrap_state + 1 = 0) \<and>
   wrap_requeries (stream_hash256 nonce_digest) first_byte_compare zero_target 0
     sample_clock sample_wrap_state \<and>
   pc ((mine_step (stream_hash256 nonce_digest) first_byte_compare zero_target 0 sample_clock ^^ 1)
        (mine_start (sample_header\<lparr>nonce := 0xFFFFFFFF\<rparr>) 0)) =
     Attempt (mine_prefix (stream_hash256 nonce_digest)
       (hdr ((mine_step (stream_hash256 nonce_digest) first_byte_compare zero_target 0 sample_clock ^^ 1)
          (mine_start (sample_header\<lparr>nonce := 0xFFFFFFFF\<rparr>) 0))))"
proof -
  let ?ops = "stream_hash256 nonce_digest"
  let ?pre = "mine_prefix ?ops (sample_header\<lparr>time := 1000\<rparr>)"
  have a: "pc sample_wrap_state = Attempt ?pre"
    by (simp add: sample_wrap_state_def)
  have b: "nonce (hdr sample_wrap_state) = 0xFFFFFFFF"
    by (simp add: sample_wrap_state_def)
  have c: "\<not> first_byte_compare
       (btc_hash256_final ?ops (btc_uint32_update ?ops ?pre (nonce (hdr sample_wrap_state))))
       zero_target \<le> 0"
    by (simp add: sample_wrap_state_def sample_defs)
  have d: "\<not> ((0 :: u64) < 0 \<and> attempt sample_wrap_state + 1 = 0)"
    by simp
  have e: "pc ((mine_step ?ops first_byte_compare zero_target 0 sample_clock ^^ 1)
        (mine_start (sample_header\<lparr>nonce := 0xFFFFFFFF\<rparr>) 0)) =
      Attempt (mine_prefix ?ops (sample_header\<lparr>time := 1000\<rparr>))"
    by (simp add: mine_step_Restart mine_start_def sample_clock_def)
  note t = mine_wrap_requeries [where ops = ?ops and hash_compare = first_byte_compare
      and target = zero_target and limit = 0 and adjtime = sample_clock
      and H = "sample_header\<lparr>nonce := 0xFFFFFFFF\<rparr>" and a = 0, OF a b c d]
  let ?X = "(mine_step ?ops first_byte_compare zero_target 0 sample_clock ^^ 1)
      (mine_start (sample_header\<lparr>nonce := 0xFFFFFFFF\<rparr>) 0)"
  from t have w: "wrap_requeries ?ops first_byte_compare zero_target 0 sample_clock
      sample_wrap_state"
    by (rule conjunct1)
  from t have "pc ?X = Attempt ?pre \<longrightarrow> ?pre = mine_prefix ?ops (hdr ?X)"
    by blast
  with e have "?pre = mine_prefix ?ops (hdr ?X)"
    by (rule rev_mp)
  with e have f: "pc ?X = Attempt (mine_prefix ?ops (hdr ?X))"
    by (simp only:)
  from a b c d w f show ?thesis
    by (intro conjI)
qed

text \<open>
  Claim C7 as stated fails when the wrapping attempt is also the one that exhausts the
  limit. On the sample header with nonce \<^verbatim>\<open>0xFFFFFFFF\<close> and limit 1, the one attempt
  fails and the nonce wraps to 0, but line 160 returns false before the loop condition
  is reached: the clock has been called once, before the attempt, and the time is still
  its first value 1000. The state before that attempt does not have the property
  \<open>wrap_requeries\<close>.
\<close>

theorem mine_wrap_at_limit_counterexample:
  "btc_header_mine (stream_hash256 nonce_digest) first_byte_compare zero_target 1
     sample_clock 0 (sample_header\<lparr>nonce := 0xFFFFFFFF\<rparr>) =
   Some \<lparr>pc = Return False, hdr = sample_header\<lparr>time := 1000, nonce := 0\<rparr>,
         attempt = 1, arg = 1, finals = 1, ticks = 1\<rparr> \<and>
   mine_step (stream_hash256 nonce_digest) first_byte_compare zero_target 1 sample_clock
     (mine_start (sample_header\<lparr>nonce := 0xFFFFFFFF\<rparr>) 0) = sample_wrap_state \<and>
   nonce (hdr sample_wrap_state) = 0xFFFFFFFF \<and>
   \<not> first_byte_compare
       (btc_header_hash (stream_hash256 nonce_digest) (hdr sample_wrap_state))
       zero_target \<le> 0 \<and>
   \<not> wrap_requeries (stream_hash256 nonce_digest) first_byte_compare zero_target 1
       sample_clock sample_wrap_state"
  by (simp add: sample_defs wrap_requeries_def sample_wrap_state_def)

lemma mine_seq_state_step:
  assumes "arg s = clock_arg adjtime a (ticks s)"
  shows "mine_seq_state (mine_step ops hash_compare target limit adjtime s) =
         mine_step ops hash_compare target limit (seq_clock (clock_val adjtime a))
           (mine_seq_state s)"
proof (cases "pc s")
  case Restart
  then have "pc (mine_seq_state s) = Restart" by (simp add: mine_seq_state_def)
  then show ?thesis
    using Restart assms
    by (simp add: mine_step_Restart) (simp add: mine_seq_state_def seq_clock_def clock_val_def)
next
  case (Attempt pre)
  then show ?thesis
    by (simp add: mine_step_def mine_seq_state_def Let_def)
next
  case (Return b)
  then show ?thesis
    by (simp add: mine_step_def mine_seq_state_def)
qed

lemma mine_arg_step:
  assumes "arg s = clock_arg adjtime a (ticks s)"
  shows "arg (mine_step ops hash_compare target limit adjtime s) =
         clock_arg adjtime a (ticks (mine_step ops hash_compare target limit adjtime s))"
proof (cases "pc s")
  case Restart
  then show ?thesis using assms by (simp add: mine_step_Restart clock_arg_Suc)
next
  case (Attempt pre)
  then show ?thesis using assms by (simp add: mine_step_def Let_def)
next
  case (Return b)
  then show ?thesis using assms by (simp add: mine_step_def)
qed

lemma mine_seq_clock:
  "map_option mine_seq_state (btc_header_mine ops hash_compare target limit adjtime a x) =
   btc_header_mine ops hash_compare target limit (seq_clock (clock_val adjtime a)) 0 x"
proof -
  have "map_option mine_seq_state
      (while_option mine_running (mine_step ops hash_compare target limit adjtime)
         (mine_start x a)) =
    while_option mine_running
      (mine_step ops hash_compare target limit (seq_clock (clock_val adjtime a)))
      (mine_seq_state (mine_start x a))"
  proof (rule while_option_commute_invariant
      [where P = "\<lambda>s. arg s = clock_arg adjtime a (ticks s)"])
    fix s :: "('a, 'b) mine_state"
    assume "arg s = clock_arg adjtime a (ticks s)"
    then show "arg (mine_step ops hash_compare target limit adjtime s) =
        clock_arg adjtime a (ticks (mine_step ops hash_compare target limit adjtime s))"
      by (rule mine_arg_step)
  next
    fix s :: "('a, 'b) mine_state"
    show "mine_running s = mine_running (mine_seq_state s)"
      by (simp add: mine_running_def mine_seq_state_def)
  next
    fix s :: "('a, 'b) mine_state"
    assume "arg s = clock_arg adjtime a (ticks s)"
    then show "mine_seq_state (mine_step ops hash_compare target limit adjtime s) =
        mine_step ops hash_compare target limit (seq_clock (clock_val adjtime a))
          (mine_seq_state s)"
      by (rule mine_seq_state_step)
  next
    show "arg (mine_start x a) = clock_arg adjtime a (ticks (mine_start x a))"
      by (simp add: mine_start_def clock_arg_def)
  qed
  then show ?thesis
    by (simp add: btc_header_mine_def mine_seq_state_def mine_start_def)
qed

lemma mine_view_seq_state: "mine_view (mine_seq_state s) = mine_view s"
  by (simp add: mine_view_def mine_seq_state_def)

text \<open>
  Claim C8 (determinism). Two runs of \<^verbatim>\<open>btc_header_mine\<close> on the same header, target
  and limit, with callbacks that may differ in how they work but return the same
  sequence of values, either both do not return or both return with the same boolean,
  the same header in all six fields, the same attempt count and the same numbers of
  finalisations and of clock calls.
\<close>

theorem mine_deterministic:
  assumes "\<forall>n. clock_val adjtime1 a1 n = clock_val adjtime2 a2 n"
  shows "map_option mine_view (btc_header_mine ops hash_compare target limit adjtime1 a1 H) =
         map_option mine_view (btc_header_mine ops hash_compare target limit adjtime2 a2 H)"
proof -
  have e: "clock_val adjtime1 a1 = clock_val adjtime2 a2"
    using assms by (simp add: fun_eq_iff)
  have v: "map_option mine_view (map_option mine_seq_state r) = map_option mine_view r"
    for r :: "('c, 'd) mine_state option"
    by (cases r) (simp_all add: mine_view_seq_state)
  have "map_option mine_view (btc_header_mine ops hash_compare target limit adjtime1 a1 H) =
      map_option mine_view
        (btc_header_mine ops hash_compare target limit (seq_clock (clock_val adjtime1 a1)) 0 H)"
    using v [of "btc_header_mine ops hash_compare target limit adjtime1 a1 H"]
    by (simp only: mine_seq_clock)
  also have "\<dots> = map_option mine_view
        (btc_header_mine ops hash_compare target limit (seq_clock (clock_val adjtime2 a2)) 0 H)"
    by (simp only: e)
  also have "\<dots> =
      map_option mine_view (btc_header_mine ops hash_compare target limit adjtime2 a2 H)"
    using v [of "btc_header_mine ops hash_compare target limit adjtime2 a2 H"]
    by (simp only: mine_seq_clock)
  finally show ?thesis .
qed

lemma sample_clock_arg: "clock_arg sample_clock 0 n = n"
  by (induction n) (simp_all add: clock_arg_def sample_clock_def)

lemma word_clock_arg: "clock_arg word_clock 1000 n = 1000 + of_nat n"
  by (induction n) (simp_all add: clock_arg_def word_clock_def)

theorem mine_deterministic_witness:
  "(\<forall>n. clock_val sample_clock 0 n = clock_val word_clock 1000 n) \<and>
   map_option mine_view
     (btc_header_mine (stream_hash256 nonce_digest) first_byte_compare zero_target 0
        sample_clock 0 (sample_header\<lparr>nonce := 0xFFFFFFFE\<rparr>)) =
   map_option mine_view
     (btc_header_mine (stream_hash256 nonce_digest) first_byte_compare zero_target 0
        word_clock 1000 (sample_header\<lparr>nonce := 0xFFFFFFFE\<rparr>))"
proof -
  have c: "\<forall>n. clock_val sample_clock 0 n = clock_val word_clock 1000 n"
    by (simp add: clock_val_def sample_clock_arg word_clock_arg sample_clock_def word_clock_def)
  show ?thesis
    using c mine_deterministic [OF c] by simp
qed

end
